theory Spec2Isabelle
  imports Complex_Main "HOL-Library.Multiset"
begin

section \<open>Numbers, errors and arrays\<close>

text \<open>
  The program is \<^verbatim>\<open>spectral_graph.py\<close>: \<^verbatim>\<open>network_transfer_function\<close> and
  \<^verbatim>\<open>network_transfer_cost\<close>. NumPy's float64 and complex128 values are modelled by
  \<^typ>\<open>real\<close> and \<^typ>\<open>complex\<close> in exact arithmetic. What exact arithmetic cannot
  follow is written out:
  \<^item> an exception of the Python code is an \<open>error\<close> value (\<open>Inl\<close>);
  \<^item> \<open>NonFinite\<close> stands for a division by zero among the scalar quantities, where NumPy
    scalars continue with \<^verbatim>\<open>inf\<close>/\<^verbatim>\<open>nan\<close> (and Python floats raise
    \<^verbatim>\<open>ZeroDivisionError\<close>): the model stops there;
  \<^item> the one place where the code itself writes \<^verbatim>\<open>np.inf\<close>, the degree masking, is
    modelled with a degree type that has an infinite value;
  \<^item> a curve with a \<^verbatim>\<open>-inf\<close>/\<^verbatim>\<open>nan\<close> entry (a decibel value of a non-positive
    number) is \<open>None\<close>, so that the comparisons of its sum with zero come out as NumPy's.
  A matrix is the list of its rows.
\<close>

datatype error = IndexError | ValueError | LinAlgError | NonFinite

type_synonym 'a matrix = "'a list list"

definition shape_ok :: "nat \<Rightarrow> 'a matrix \<Rightarrow> bool" where
  "shape_ok n A \<longleftrightarrow> length A = n \<and> list_all (\<lambda>r. length r = n) A"

definition column :: "'a matrix \<Rightarrow> nat \<Rightarrow> 'a list" where
  "column A k = map (\<lambda>r. r ! k) A"

text \<open>\<^verbatim>\<open>np.mean\<close>. Of an empty array NumPy returns \<^verbatim>\<open>nan\<close>; every caller below that
  can meet an empty array tests for it.\<close>

definition mean :: "real list \<Rightarrow> real" where
  "mean xs = sum_list xs / real (length xs)"

text \<open>\<^verbatim>\<open>np.round\<close>: to the nearest integer, a tie to the even neighbour.\<close>

definition np_round :: "real \<Rightarrow> int" where
  "np_round x =
     (let f = \<lfloor>x\<rfloor>; r = x - of_int f
      in if r < 1 / 2 then f
         else if 1 / 2 < r then f + 1
         else if even f then f else f + 1)"

text \<open>\<^verbatim>\<open>numsmalleigs = np.round(2/3*C.shape[0])\<close>, then \<^verbatim>\<open>K.astype(int)\<close>.\<close>

definition numsmalleigs :: "nat \<Rightarrow> nat" where
  "numsmalleigs n = nat (np_round (2 / 3 * real n))"

text \<open>\<^verbatim>\<open>np.argsort\<close>: the indices in an order that sorts the keys. NumPy's default sort
  is not stable; the model takes the stable order, and no statement below depends on how
  ties are broken.\<close>

definition argsort :: "real list \<Rightarrow> nat list" where
  "argsort xs = sort_key (\<lambda>i. xs ! i) [0..<length xs]"

section \<open>The Laplacian\<close>

text \<open>A degree is a real number or \<^verbatim>\<open>np.inf\<close>.\<close>

datatype degree = Deg real | DegInf

definition rowdegree0 :: "real matrix \<Rightarrow> real list" where
  "rowdegree0 C = map sum_list C"

definition coldegree0 :: "real matrix \<Rightarrow> real list" where
  "coldegree0 C = map (\<lambda>j. sum_list (column C j)) [0..<length C]"

text \<open>\<^verbatim>\<open>qind = rowdegree + coldegree < 0.2*np.mean(rowdegree + coldegree)\<close>\<close>

definition qind :: "real list \<Rightarrow> real list \<Rightarrow> bool list" where
  "qind rd cd = (let s = map2 (+) rd cd in map (\<lambda>x. x < 0.2 * mean s) s)"

text \<open>\<^verbatim>\<open>rowdegree[qind] = np.inf\<close>, and the same for \<^verbatim>\<open>coldegree\<close>.\<close>

definition mask :: "bool list \<Rightarrow> real list \<Rightarrow> degree list" where
  "mask q d = map2 (\<lambda>b x. if b then DegInf else Deg x) q d"

text \<open>\<^verbatim>\<open>np.spacing(1)\<close>, the distance from 1.0 to the next float64.\<close>

definition eps :: real where
  "eps = 1 / 2 ^ 52"

text \<open>One entry of \<^verbatim>\<open>L2 = np.divide(1, np.sqrt(rowdegree*coldegree)+np.spacing(1))\<close>.
  \<open>None\<close> is \<^verbatim>\<open>nan\<close>: the square root of a negative product, or \<^verbatim>\<open>inf\<close> times a
  degree that is not positive. \<^verbatim>\<open>1/inf\<close> is 0.\<close>

fun L2_entry :: "degree \<Rightarrow> degree \<Rightarrow> real option" where
  "L2_entry (Deg r) (Deg c) = (if r * c < 0 then None else Some (1 / (sqrt (r * c) + eps)))"
| "L2_entry DegInf DegInf = Some 0"
| "L2_entry DegInf (Deg c) = (if 0 < c then Some 0 else None)"
| "L2_entry (Deg r) DegInf = (if 0 < r then Some 0 else None)"

definition identity :: "nat \<Rightarrow> complex matrix" where
  "identity n = map (\<lambda>i. map (\<lambda>j. if i = j then 1 else 0) [0..<n]) [0..<n]"

definition diag :: "complex list \<Rightarrow> complex matrix" where
  "diag xs = map (\<lambda>i. map (\<lambda>j. if i = j then xs ! i else 0) [0..<length xs]) [0..<length xs]"

definition ncols :: "'a matrix \<Rightarrow> nat" where
  "ncols B = (case B of [] \<Rightarrow> 0 | r # _ \<Rightarrow> length r)"

definition matmul :: "complex matrix \<Rightarrow> complex matrix \<Rightarrow> complex matrix" where
  "matmul A B = map (\<lambda>a. map (\<lambda>j. sum_list (map2 (*) a (column B j))) [0..<ncols B]) A"

text \<open>\<^verbatim>\<open>Tau = 0.001*D/speed\<close> and \<^verbatim>\<open>Cc = C*np.exp(-1j*Tau*w)\<close>, entry by entry.\<close>

definition delayed :: "real \<Rightarrow> real \<Rightarrow> real \<Rightarrow> real \<Rightarrow> complex" where
  "delayed speed w c d =
     of_real c * exp (- \<i> * of_real (0.001 * d / speed) * of_real w)"

definition Cc :: "real matrix \<Rightarrow> real matrix \<Rightarrow> real \<Rightarrow> real \<Rightarrow> complex matrix" where
  "Cc C D w speed = map2 (map2 (delayed speed w)) C D"

text \<open>
  \<^verbatim>\<open>L = L1 - np.matmul(np.diag(L2), Cc)\<close> with \<^verbatim>\<open>L1 = 0.8*np.identity(nroi)\<close>.
  \<open>C\<close> and \<open>D\<close> are \<open>nroi \<times> nroi\<close> (other shapes make the elementwise operations
  raise, or broadcast outside the data model). With \<open>speed = 0\<close> every entry of \<^verbatim>\<open>Cc\<close> is
  \<^verbatim>\<open>nan\<close>, with a \<^verbatim>\<open>nan\<close> in \<^verbatim>\<open>L2\<close> a row of \<open>L\<close> is: \<^verbatim>\<open>np.linalg.eig\<close> then
  raises \<^verbatim>\<open>LinAlgError\<close>.
\<close>

definition laplacian :: "real matrix \<Rightarrow> real matrix \<Rightarrow> real \<Rightarrow> real \<Rightarrow> error + complex matrix" where
  "laplacian C D w speed =
     (let nroi = length C;
          q = qind (rowdegree0 C) (coldegree0 C);
          rowdegree = mask q (rowdegree0 C);
          coldegree = mask q (coldegree0 C)
      in if \<not> (shape_ok nroi C \<and> shape_ok nroi D) then Inl ValueError
         else if 0 < nroi \<and> speed = 0 then Inl LinAlgError
         else case those (map2 L2_entry rowdegree coldegree) of
                None \<Rightarrow> Inl LinAlgError
              | Some L2 \<Rightarrow>
                  Inr (map2 (map2 (-))
                        (map (map ((*) 0.8)) (identity nroi))
                        (matmul (diag (map of_real L2)) (Cc C D w speed))))"

section \<open>The transfer function\<close>

record parameters =
  tau_e :: real
  tau_i :: real
  alpha :: real
  speed :: real
  gei :: real
  gii :: real
  tauC :: real

text \<open>The cortical model; \<open>a = 0.5\<close> is the constant of the source.\<close>

definition He :: "parameters \<Rightarrow> real \<Rightarrow> complex" where
  "He p w = (1 / of_real (tau_e p) ^ 2) / (\<i> * of_real w + 1 / of_real (tau_e p)) ^ 2"

definition Hi :: "parameters \<Rightarrow> real \<Rightarrow> complex" where
  "Hi p w = (of_real (gii p) * 1 / of_real (tau_i p) ^ 2)
              / (\<i> * of_real w + 1 / of_real (tau_i p)) ^ 2"

definition Hed :: "parameters \<Rightarrow> real \<Rightarrow> complex" where
  "Hed p w = of_real (alpha p) / of_real (tau_e p)
               / (\<i> * of_real w + of_real (alpha p) / of_real (tau_e p) * He p w)"

definition Hid :: "parameters \<Rightarrow> real \<Rightarrow> complex" where
  "Hid p w = of_real (alpha p) / of_real (tau_i p)
               / (\<i> * of_real w + of_real (alpha p) / of_real (tau_i p) * Hi p w)"

definition Heid :: "parameters \<Rightarrow> real \<Rightarrow> complex" where
  "Heid p w = of_real (gei p) * He p w * Hi p w / (1 + of_real (gei p) * He p w * Hi p w)"

definition Htotal :: "parameters \<Rightarrow> real \<Rightarrow> complex" where
  "Htotal p w = 0.5 * Hed p w + (1 - 0.5) / 2 * Hid p w + (1 - 0.5) / 2 * Heid p w"

text \<open>No divisor of the cortical model and of \<^verbatim>\<open>q1\<close> is zero.\<close>

definition scalars_defined :: "parameters \<Rightarrow> real \<Rightarrow> bool" where
  "scalars_defined p w \<longleftrightarrow>
     tau_e p \<noteq> 0 \<and> tau_i p \<noteq> 0 \<and> alpha p \<noteq> 0 \<and> tauC p \<noteq> 0
     \<and> \<i> * of_real w + of_real (alpha p) / of_real (tau_e p) * He p w \<noteq> 0
     \<and> \<i> * of_real w + of_real (alpha p) / of_real (tau_i p) * Hi p w \<noteq> 0
     \<and> 1 + of_real (gei p) * He p w * Hi p w \<noteq> 0"

text \<open>\<^verbatim>\<open>q1 = 1/alpha*tauC*(1j*w + alpha/tauC*He*ev)\<close>, one mode.\<close>

definition q1_raw :: "parameters \<Rightarrow> real \<Rightarrow> complex \<Rightarrow> complex" where
  "q1_raw p w e =
     1 / of_real (alpha p) * of_real (tauC p)
       * (\<i> * of_real w + of_real (alpha p) / of_real (tauC p) * He p w * e)"

definition zero_thr :: real where
  "zero_thr = 0.05"

fun list_max :: "real list \<Rightarrow> real" where
  "list_max [] = 0"
| "list_max [x] = x"
| "list_max (x # xs) = max x (list_max xs)"

text \<open>
  \<^verbatim>\<open>qthr = zero_thr*np.abs(q1[:]).max()\<close>, \<^verbatim>\<open>magq1 = np.maximum(np.abs(q1), qthr)\<close>,
  \<^verbatim>\<open>angq1 = np.angle(q1)\<close>, \<^verbatim>\<open>q1 = np.multiply(magq1, np.exp(1j*angq1))\<close>.
  \<^verbatim>\<open>np.angle\<close> is the argument in \<open>(-\<pi>, \<pi>]\<close>, 0 at 0: \<^const>\<open>Arg\<close>. The caller has
  excluded the empty vector, where \<^verbatim>\<open>max\<close> raises.
\<close>

definition clamp_q1 :: "complex list \<Rightarrow> complex list" where
  "clamp_q1 q1 =
     (let qthr = zero_thr * list_max (map cmod q1);
          magq1 = map (\<lambda>q. max (cmod q) qthr) q1;
          angq1 = map Arg q1
      in map2 (\<lambda>m a. of_real m * exp (\<i> * of_real a)) magq1 angq1)"

text \<open>\<^verbatim>\<open>freqresp_out\<close> starts as the scalar 0 and becomes a vector with the first mode
  that is added.\<close>

datatype response = Scalar0 | Regions "complex list"

fun add_mode :: "response \<Rightarrow> complex list \<Rightarrow> response" where
  "add_mode Scalar0 v = Regions v"
| "add_mode (Regions u) v = Regions (map2 (+) u v)"

record transfer =
  freqresp :: "complex list"
  ev :: "complex list"
  Vv :: "complex matrix"
  freqresp_out :: response

text \<open>
  \<^verbatim>\<open>network_transfer_function\<close> with \<^verbatim>\<open>use_smalleigs = True\<close>, as the source fixes it.
  \<open>eig\<close> is \<^verbatim>\<open>np.linalg.eig\<close>: the eigenvalues and the matrix whose columns are the
  eigenvectors, as many as the matrix has rows (\<open>eig_shape\<close> below), so that every
  index into them is in range. The fifth result, \<^verbatim>\<open>FCmodel\<close>, is computed last from the other four and
  is not read by \<^verbatim>\<open>network_transfer_cost\<close>; it is left out.
\<close>

definition network_transfer_function ::
  "(complex matrix \<Rightarrow> complex list \<times> complex matrix) \<Rightarrow> real matrix \<Rightarrow> real matrix
     \<Rightarrow> real \<Rightarrow> parameters \<Rightarrow> error + transfer" where
  "network_transfer_function eig C D w p =
     (case laplacian C D w (speed p) of
        Inl e \<Rightarrow> Inl e
      | Inr L \<Rightarrow>
          (let K = numsmalleigs (length C);
               (d, v) = eig L;
               eig_ind = argsort (map Re d);
               eig_vec = map (\<lambda>r. map (\<lambda>i. r ! i) eig_ind) v;
               eig_val = map (\<lambda>i. d ! i) eig_ind;
               ev = take K eig_val;
               Vv = map (take K) eig_vec;
               q1 = clamp_q1 (map (q1_raw p w) ev);
               freqresp = map (\<lambda>q. Htotal p w / q) q1;
               freqresp_out =
                 foldl (\<lambda>acc k. add_mode acc (map (\<lambda>x. freqresp ! k * x) (column Vv k)))
                   Scalar0 [1..<K]
           in if ev = [] then Inl ValueError
              else if \<not> scalars_defined p w \<or> list_ex (\<lambda>q. q = 0) q1 then Inl NonFinite
              else Inr \<lparr>freqresp = freqresp, ev = ev, Vv = Vv, freqresp_out = freqresp_out\<rparr>))"

section \<open>The cost function\<close>

text \<open>
  The cost function compares floating-point sums with zero exactly, so what it does depends
  on how \<^verbatim>\<open>np.sum\<close> and \<^verbatim>\<open>np.mean\<close> round. They are parameters of the model;
  \<open>exact_arith\<close> is real arithmetic. The other operations are exact.
\<close>

record arith =
  np_sum :: "real list \<Rightarrow> real"
  np_mean :: "real list \<Rightarrow> real"

definition exact_arith :: arith where
  "exact_arith = \<lparr>np_sum = sum_list, np_mean = mean\<rparr>"

text \<open>\<^verbatim>\<open>mag2db(y) = 20*np.log10(y)\<close>. An entry that is not positive gives \<^verbatim>\<open>-inf\<close> or
  \<^verbatim>\<open>nan\<close>: the curve is \<open>None\<close>.\<close>

definition mag2db :: "real list \<Rightarrow> real list option" where
  "mag2db y = (if list_all (\<lambda>v. 0 < v) y then Some (map (\<lambda>v. 20 * log 10 v) y) else None)"

text \<open>\<^verbatim>\<open>q - np.mean(q)\<close>. A curve with a \<^verbatim>\<open>-inf\<close> or \<^verbatim>\<open>nan\<close> entry has the mean
  \<^verbatim>\<open>-inf\<close> or \<^verbatim>\<open>nan\<close> and stays non-finite.\<close>

definition centre :: "arith \<Rightarrow> real list option \<Rightarrow> real list option" where
  "centre ar q = map_option (\<lambda>x. map (\<lambda>v. v - np_mean ar x) x) q"

text \<open>\<^verbatim>\<open>np.sum(q) == 0\<close>. The sum of a non-finite curve is \<^verbatim>\<open>nan\<close> or infinite, never
  zero.\<close>

definition sum_zero :: "arith \<Rightarrow> real list option \<Rightarrow> bool" where
  "sum_zero ar q = (case q of None \<Rightarrow> False | Some x \<Rightarrow> np_sum ar x = 0)"

text \<open>
  \<^verbatim>\<open>np.convolve(a, v, mode='same')\<close>, after NumPy: the full convolution has
  \<open>M + N - 1\<close> entries, and mode \<^verbatim>\<open>same\<close> returns the \<open>max M N\<close> central ones, starting
  at entry \<open>(min M N - 1) div 2\<close>. An empty argument raises \<^verbatim>\<open>ValueError\<close>.
\<close>

definition conv_full :: "real list \<Rightarrow> real list \<Rightarrow> real list" where
  "conv_full a v =
     map (\<lambda>k. sum_list (map (\<lambda>j. if j \<le> k \<and> k - j < length v then a ! j * v ! (k - j) else 0)
                          [0..<length a]))
       [0..<length a + length v - 1]"

definition np_convolve_same :: "real list \<Rightarrow> real list \<Rightarrow> error + real list" where
  "np_convolve_same a v =
     (if a = [] \<or> v = [] then Inl ValueError
      else Inr (take (max (length a) (length v))
                  (drop ((min (length a) (length v) - 1) div 2) (conv_full a v))))"

text \<open>The frequency loop: \<^verbatim>\<open>w = 2*np.pi*i\<close>, one call of the transfer function for each
  bin, \<^verbatim>\<open>freq_model.append(freqresp_out)\<close>.\<close>

fun sweep ::
  "(complex matrix \<Rightarrow> complex list \<times> complex matrix) \<Rightarrow> real matrix \<Rightarrow> real matrix
     \<Rightarrow> parameters \<Rightarrow> real list \<Rightarrow> error + response list" where
  "sweep eig C D p [] = Inr []"
| "sweep eig C D p (i # frange) =
     (case network_transfer_function eig C D (2 * pi * i) p of
        Inl e \<Rightarrow> Inl e
      | Inr r \<Rightarrow>
          (case sweep eig C D p frange of
             Inl e \<Rightarrow> Inl e
           | Inr rs \<Rightarrow> Inr (freqresp_out r # rs)))"

definition vector_of :: "response \<Rightarrow> complex list option" where
  "vector_of r = (case r of Scalar0 \<Rightarrow> None | Regions v \<Rightarrow> Some v)"

text \<open>
  \<^verbatim>\<open>freq_model = np.asarray(freq_model)\<close> and
  \<^verbatim>\<open>freq_model = freq_model[:, rois_with_MEG].transpose()\<close>. The array has two axes only
  when there is a frequency bin and every response is a vector; indexing a second axis of
  a one-axis array raises \<^verbatim>\<open>IndexError\<close>, as a region label beyond the region axis does.
  Region labels are natural numbers (NumPy's negative indices are not modelled). Row \<open>j\<close>
  of the result is the response of region \<open>rois ! j\<close> over the bins.
\<close>

definition restrict :: "response list \<Rightarrow> nat list \<Rightarrow> error + complex matrix" where
  "restrict fm rois =
     (case those (map vector_of fm) of
        None \<Rightarrow> Inl IndexError
      | Some rows \<Rightarrow>
          if rows = [] then Inl IndexError
          else if list_ex (\<lambda>n. \<not> list_all (\<lambda>r. n < length r) rows) rois then Inl IndexError
          else Inr (map (\<lambda>n. map (\<lambda>r. r ! n) rows) rois))"

text \<open>\<^verbatim>\<open>err_min[n] = v\<close>: an assignment beyond the end of the array raises.\<close>

definition store :: "real list \<Rightarrow> nat \<Rightarrow> real \<Rightarrow> error + real list" where
  "store err_min n v = (if n < length err_min then Inr (err_min[n := v]) else Inl IndexError)"

text \<open>
  The body of \<^verbatim>\<open>for n in rois_with_MEG\<close>. \<open>pearsonr\<close> is
  \<^verbatim>\<open>scipy.stats.pearsonr(...)[0]\<close>, called on finite curves; on a non-finite curve the
  score is \<^verbatim>\<open>nan\<close> and the model stops.
\<close>

definition region_step ::
  "arith \<Rightarrow> (real list \<Rightarrow> real list \<Rightarrow> error + real) \<Rightarrow> real list \<Rightarrow> real matrix
     \<Rightarrow> complex matrix \<Rightarrow> real list \<Rightarrow> nat \<Rightarrow> error + real list" where
  "region_step ar pearsonr lpf FMEGdata freq_model err_min n =
     (if \<not> n < length FMEGdata then Inl IndexError
      else
        let qdata = (if np_sum ar (FMEGdata ! n) \<noteq> 0
                     then centre ar (mag2db (FMEGdata ! n))
                     else Some (FMEGdata ! n))
        in if \<not> n < length freq_model then Inl IndexError
           else
             case np_convolve_same (map cmod (freq_model ! n)) lpf of
               Inl e \<Rightarrow> Inl e
             | Inr cv \<Rightarrow>
                 let qmodel = centre ar (mag2db cv)
                 in if sum_zero ar qmodel \<or> sum_zero ar qdata then store err_min n 0
                    else
                      (case (qdata, qmodel) of
                         (Some x, Some y) \<Rightarrow>
                           (case pearsonr x y of
                              Inl e \<Rightarrow> Inl e
                            | Inr r \<Rightarrow> store err_min n r)
                       | _ \<Rightarrow> Inl NonFinite))"

fun regions_loop ::
  "(real list \<Rightarrow> nat \<Rightarrow> error + real list) \<Rightarrow> real list \<Rightarrow> nat list \<Rightarrow> error + real list" where
  "regions_loop step err_min [] = Inr err_min"
| "regions_loop step err_min (n # ns) =
     (case step err_min n of
        Inl e \<Rightarrow> Inl e
      | Inr err_min' \<Rightarrow> regions_loop step err_min' ns)"

text \<open>
  \<^verbatim>\<open>network_transfer_cost\<close>. \<^verbatim>\<open>err_min = np.zeros(rois_with_MEG.shape)\<close>, and at the
  end \<^verbatim>\<open>err_out = -np.mean(err_min)\<close>, which is \<^verbatim>\<open>nan\<close> for an empty region list.
\<close>

definition network_transfer_cost ::
  "(complex matrix \<Rightarrow> complex list \<times> complex matrix) \<Rightarrow> (real list \<Rightarrow> real list \<Rightarrow> error + real)
     \<Rightarrow> arith \<Rightarrow> real list \<Rightarrow> real matrix \<Rightarrow> real matrix \<Rightarrow> real list \<Rightarrow> real matrix
     \<Rightarrow> real list \<Rightarrow> nat list \<Rightarrow> error + real" where
  "network_transfer_cost eig pearsonr ar params C D lpf FMEGdata frange rois_with_MEG =
     (if length params < 7 then Inl IndexError
      else
        let p = \<lparr>tau_e = params ! 0, tau_i = params ! 1, alpha = params ! 2,
                 speed = params ! 3, gei = params ! 4, gii = params ! 5, tauC = params ! 6\<rparr>
        in case sweep eig C D p frange of
             Inl e \<Rightarrow> Inl e
           | Inr fm \<Rightarrow>
               (case restrict fm rois_with_MEG of
                  Inl e \<Rightarrow> Inl e
                | Inr freq_model \<Rightarrow>
                    (case regions_loop (region_step ar pearsonr lpf FMEGdata freq_model)
                            (replicate (length rois_with_MEG) 0) rois_with_MEG of
                       Inl e \<Rightarrow> Inl e
                     | Inr err_min \<Rightarrow>
                         if rois_with_MEG = [] then Inl NonFinite
                         else Inr (- np_mean ar err_min))))"

section \<open>The eigensolver, and a worked input\<close>

text \<open>What the model asks of \<^verbatim>\<open>np.linalg.eig\<close>: for an \<open>n \<times> n\<close> matrix, \<open>n\<close>
  eigenvalues and an \<open>n \<times> n\<close> matrix of eigenvectors.\<close>

definition eig_shape :: "(complex matrix \<Rightarrow> complex list \<times> complex matrix) \<Rightarrow> bool" where
  "eig_shape eig \<longleftrightarrow>
     (\<forall>L. length (fst (eig L)) = length L \<and> shape_ok (length L) (snd (eig L)))"

text \<open>The eigen-decomposition of a diagonal matrix: its diagonal and the identity. It runs
  the model on inputs whose Laplacian is diagonal.\<close>

definition eig_diag :: "complex matrix \<Rightarrow> complex list \<times> complex matrix" where
  "eig_diag L = (map (\<lambda>i. L ! i ! i) [0..<length L], identity (length L))"

text \<open>The default keyword values of \<^verbatim>\<open>network_transfer_function\<close>.\<close>

definition defaults :: parameters where
  "defaults = \<lparr>tau_e = 0.012, tau_i = 0.003, alpha = 1, speed = 5, gei = 4, gii = 1,
                tauC = 0.006\<rparr>"

definition C_self :: "real matrix" where
  "C_self = [[1, 0, 0, 0], [0, 1, 0, 0], [0, 0, 2, 0], [0, 0, 0, 0.1]]"

definition D_zero :: "real matrix" where
  "D_zero = [[0, 0, 0, 0], [0, 0, 0, 0], [0, 0, 0, 0], [0, 0, 0, 0]]"

text \<open>The Laplacian of \<open>C_self\<close>, with \<open>D_zero\<close>: its fourth region is masked.\<close>

definition a_self :: complex where
  "a_self = 0.8 - 1 / (1 + of_real eps)"

definition b_self :: complex where
  "b_self = 0.8 - 2 / (2 + of_real eps)"

definition L_self :: "complex matrix" where
  "L_self = [[a_self, 0, 0, 0], [0, a_self, 0, 0], [0, 0, b_self, 0], [0, 0, 0, 0.8]]"

text \<open>The per-mode response of this input at \<open>w = 0\<close>.\<close>

definition fr_self :: "complex list" where
  "fr_self = map (\<lambda>q. 19 / 20 / q) (clamp_q1 [b_self, a_self, a_self])"
















section \<open>Convolution\<close>

lemma length_conv_full: "length (conv_full a v) = length a + length v - 1"
  by (simp add: conv_full_def)

lemma same_window_fits:
  fixes m n :: nat
  assumes "0 < m" and "0 < n"
  shows "(min m n - 1) div 2 + max m n \<le> m + n - 1"
proof (cases "m \<le> n")
  case True
  have "(m - 1) div 2 \<le> m - 1" by simp
  with True assms show ?thesis by (simp add: min_def max_def)
next
  case False
  have "(n - 1) div 2 \<le> n - 1" by simp
  with False assms show ?thesis by (simp add: min_def max_def)
qed

lemma length_take_drop: "s + k \<le> length xs \<Longrightarrow> length (take k (drop s xs)) = k"
  by simp

text \<open>The example of NumPy's documentation:
  \<^verbatim>\<open>np.convolve([1,2,3],[0,1,0.5], 'same')\<close> is \<^verbatim>\<open>array([1., 2.5, 4.])\<close>.\<close>

lemma np_convolve_same_example: "np_convolve_same [1, 2, 3] [0, 1, 1 / 2] = Inr [1, 5 / 2, 4]"
  by (simp add: np_convolve_same_def conv_full_def upt_rec)

text \<open>
  Claim C9, as stated: for a model curve of length \<open>F'\<close> and an odd-length filter, the
  \<^verbatim>\<open>same\<close>-mode convolution of the cost function returns exactly \<open>F'\<close> entries. It fails
  for a filter longer than the curve: a curve of two bins and a filter of three taps give
  three entries.
\<close>

theorem convolve_same_length_counterexample:
  "odd (length [1, 1, 1 :: real]) \<and>
   (case np_convolve_same [1, 1] [1, 1, 1] of
      Inl e \<Rightarrow> False
    | Inr r \<Rightarrow> length r \<noteq> length [1, 1 :: real])"
  by (simp add: np_convolve_same_def conv_full_def)

text \<open>
  Claim C9, amended: for a non-empty curve and a non-empty filter, of any parity, the
  convolution returns \<open>max F' (length lpf)\<close> entries; these are exactly \<open>F'\<close> when the
  filter is not longer than the curve.
\<close>

theorem convolve_same_length:
  assumes "a \<noteq> []" and "v \<noteq> []"
  shows "\<exists>r. np_convolve_same a v = Inr r \<and> length r = max (length a) (length v)
               \<and> (length v \<le> length a \<longrightarrow> length r = length a)"
proof -
  define r where
    "r = take (max (length a) (length v))
           (drop ((min (length a) (length v) - 1) div 2) (conv_full a v))"
  have "0 < length a" "0 < length v" using assms by simp_all
  then have "(min (length a) (length v) - 1) div 2 + max (length a) (length v)
               \<le> length a + length v - 1"
    by (rule same_window_fits)
  then have len: "length r = max (length a) (length v)"
    unfolding r_def by (intro length_take_drop) (simp only: length_conv_full)
  have eq: "np_convolve_same a v = Inr r"
    unfolding r_def using assms by (simp only: np_convolve_same_def) simp
  have "length v \<le> length a \<longrightarrow> length r = length a"
    using len by (simp add: max_def)
  with len eq show ?thesis by blast
qed

theorem convolve_same_length_witness:
  "\<exists>r. np_convolve_same [1, 2, 3] [0, 1, 1 / 2] = Inr r
        \<and> length r = max (length [1, 2, 3 :: real]) (length [0, 1, 1 / 2 :: real])
        \<and> (length [0, 1, 1 / 2 :: real] \<le> length [1, 2, 3 :: real]
             \<longrightarrow> length r = length [1, 2, 3 :: real])"
  using convolve_same_length [of "[1, 2, 3]" "[0, 1, 1 / 2]"] by simp

section \<open>Shapes\<close>

lemma np_round_low: "0 \<le> r \<Longrightarrow> r < 1 / 2 \<Longrightarrow> np_round (of_int z + r) = z"
proof -
  assume r: "0 \<le> r" "r < 1 / 2"
  then have f: "\<lfloor>of_int z + r\<rfloor> = z" by linarith
  show ?thesis unfolding np_round_def Let_def f using r by simp
qed

lemma np_round_high: "1 / 2 < r \<Longrightarrow> r < 1 \<Longrightarrow> np_round (of_int z + r) = z + 1"
proof -
  assume r: "1 / 2 < r" "r < 1"
  then have f: "\<lfloor>of_int z + r\<rfloor> = z" by linarith
  show ?thesis unfolding np_round_def Let_def f using r by simp
qed

lemma numsmalleigs_eq: "numsmalleigs n = (2 * n + 1) div 3"
proof -
  obtain m k where n: "n = 3 * m + k" and k: "k < 3"
    by (metis mod_less_divisor mult_div_mod_eq zero_less_numeral)
  from k consider "k = 0" | "k = 1" | "k = 2" by linarith
  then show ?thesis
  proof cases
    case 1
    have "2 / 3 * real n = of_int (int (2 * m)) + 0" using n 1 by simp
    then have "np_round (2 / 3 * real n) = np_round (of_int (int (2 * m)) + 0)"
      by (simp only:)
    also have "\<dots> = int (2 * m)" by (rule np_round_low) simp_all
    finally have "np_round (2 / 3 * real n) = int (2 * m)" .
    then show ?thesis using n 1 by (simp add: numsmalleigs_def)
  next
    case 2
    have "2 / 3 * real n = of_int (int (2 * m)) + 2 / 3" using n 2 by (simp add: field_simps)
    then have "np_round (2 / 3 * real n) = np_round (of_int (int (2 * m)) + 2 / 3)"
      by (simp only:)
    also have "\<dots> = int (2 * m) + 1" by (rule np_round_high) simp_all
    finally have "np_round (2 / 3 * real n) = int (2 * m) + 1" .
    then show ?thesis using n 2 by (simp add: numsmalleigs_def)
  next
    case 3
    have "2 / 3 * real n = of_int (int (2 * m + 1)) + 1 / 3" using n 3 by (simp add: field_simps)
    then have "np_round (2 / 3 * real n) = np_round (of_int (int (2 * m + 1)) + 1 / 3)"
      by (simp only:)
    also have "\<dots> = int (2 * m + 1)" by (rule np_round_low) simp_all
    finally have "np_round (2 / 3 * real n) = int (2 * m + 1)" .
    then show ?thesis using n 3 by (simp add: numsmalleigs_def)
  qed
qed

lemma numsmalleigs_le: "numsmalleigs n \<le> n"
  by (simp add: numsmalleigs_eq)

lemma numsmalleigs_nearest: "\<bar>real (numsmalleigs n) - 2 / 3 * real n\<bar> < 1 / 2"
proof -
  define k where "k = (2 * n + 1) div 3"
  have "3 * k \<le> 2 * n + 1" unfolding k_def by simp
  then have "real (3 * k) \<le> real (2 * n + 1)" by (simp only: of_nat_le_iff)
  then have a: "3 * real k \<le> 2 * real n + 1" by simp
  have "2 * n + 1 \<le> 3 * k + 2" unfolding k_def by presburger
  then have "real (2 * n + 1) \<le> real (3 * k + 2)" by (simp only: of_nat_le_iff)
  then have b: "2 * real n + 1 \<le> 3 * real k + 2" by simp
  have "numsmalleigs n = k" by (simp add: numsmalleigs_eq k_def)
  then show ?thesis using a b by linarith
qed


lemma eig_shape_eig_diag: "eig_shape eig_diag"
  by (simp add: eig_shape_def eig_diag_def shape_ok_def identity_def list_all_iff)

lemma length_matmul: "length (matmul A B) = length A"
  by (simp add: matmul_def)

lemma those_length: "those xs = Some ys \<Longrightarrow> length ys = length xs"
  by (induction xs arbitrary: ys) (auto split: option.splits)


lemma length_qind: "length rd = n \<Longrightarrow> length cd = n \<Longrightarrow> length (qind rd cd) = n"
  by (simp add: qind_def)

lemma length_mask: "length q = n \<Longrightarrow> length d = n \<Longrightarrow> length (mask q d) = n"
  by (simp add: mask_def)

lemma length_rowdegree0: "length (rowdegree0 C) = length C"
  by (simp add: rowdegree0_def)

lemma length_coldegree0: "length (coldegree0 C) = length C"
  by (simp add: coldegree0_def)

lemma laplacian_InrD:
  assumes "laplacian C D w s = Inr L"
  obtains L2 where
    "shape_ok (length C) C" "shape_ok (length C) D"
    "those (map2 L2_entry
        (mask (qind (rowdegree0 C) (coldegree0 C)) (rowdegree0 C))
        (mask (qind (rowdegree0 C) (coldegree0 C)) (coldegree0 C))) = Some L2"
    "L = map2 (map2 (-)) (map (map ((*) 0.8)) (identity (length C)))
           (matmul (diag (map of_real L2)) (Cc C D w s))"
  using assms
  by (auto simp: laplacian_def Let_def split: if_splits option.splits)

lemma laplacian_length:
  assumes "laplacian C D w s = Inr L"
  shows "length L = length C"
proof -
  from assms obtain L2 where
    t: "those (map2 L2_entry
        (mask (qind (rowdegree0 C) (coldegree0 C)) (rowdegree0 C))
        (mask (qind (rowdegree0 C) (coldegree0 C)) (coldegree0 C))) = Some L2"
    and L: "L = map2 (map2 (-)) (map (map ((*) 0.8)) (identity (length C)))
           (matmul (diag (map of_real L2)) (Cc C D w s))"
    by (rule laplacian_InrD)
  have "length (qind (rowdegree0 C) (coldegree0 C)) = length C"
    by (rule length_qind) (simp_all add: length_rowdegree0 length_coldegree0)
  then have "length L2 = length C"
    using those_length[OF t]
    by (simp add: length_mask length_rowdegree0 length_coldegree0)
  then show ?thesis unfolding L
    by (simp add: identity_def length_matmul diag_def)
qed

lemma length_argsort: "length (argsort xs) = length xs"
  by (simp add: argsort_def)

lemma set_argsort: "set (argsort xs) = {0..<length xs}"
  by (simp add: argsort_def)


lemma length_clamp_q1: "length (clamp_q1 q) = length q"
  by (simp add: clamp_q1_def Let_def)

lemma ntf_InrD:
  assumes "network_transfer_function eig C D w p = Inr r"
  obtains L where
    "laplacian C D w (speed p) = Inr L"
    "ev r = take (numsmalleigs (length C))
              (map (\<lambda>i. fst (eig L) ! i) (argsort (map Re (fst (eig L)))))"
    "Vv r = map (take (numsmalleigs (length C)))
              (map (\<lambda>r. map (\<lambda>i. r ! i) (argsort (map Re (fst (eig L))))) (snd (eig L)))"
    "freqresp r = map (\<lambda>q. Htotal p w / q) (clamp_q1 (map (q1_raw p w) (ev r)))"
    "freqresp_out r =
       foldl (\<lambda>acc k. add_mode acc (map (\<lambda>x. freqresp r ! k * x) (column (Vv r) k)))
         Scalar0 [1..<numsmalleigs (length C)]"
    "ev r \<noteq> []" "scalars_defined p w"
    "\<not> list_ex (\<lambda>q. q = 0) (clamp_q1 (map (q1_raw p w) (ev r)))"
  using assms
  by (auto simp: network_transfer_function_def Let_def case_prod_beta
           split: sum.splits if_splits)


section \<open>The clamped coupling term\<close>

lemma list_max_Max: "xs \<noteq> [] \<Longrightarrow> list_max xs = Max (set xs)"
proof (induction xs rule: list_max.induct)
  case 1
  then show ?case by simp
next
  case (2 x)
  then show ?case by simp
next
  case (3 x y ys)
  then show ?case by (simp add: max.commute)
qed

lemma clamp_q1_nth:
  assumes "k < length q"
  shows "clamp_q1 q ! k =
           rcis (max (cmod (q ! k)) (zero_thr * list_max (map cmod q))) (Arg (q ! k))"
  using assms by (simp add: clamp_q1_def Let_def rcis_def cis_conv_exp)

lemma list_max_ge: "x \<in> set xs \<Longrightarrow> x \<le> list_max xs"
proof -
  assume x: "x \<in> set xs"
  then have "xs \<noteq> []" by auto
  then show ?thesis using x by (simp add: list_max_Max)
qed

lemma list_max_nonneg: "\<forall>x\<in>set xs. 0 \<le> x \<Longrightarrow> 0 \<le> list_max xs"
  by (induction xs rule: list_max.induct) auto

lemma qthr_nonneg: "0 \<le> zero_thr * list_max (map cmod q)"
proof -
  have "0 \<le> list_max (map cmod q)" by (rule list_max_nonneg) auto
  then show ?thesis by (simp add: zero_thr_def)
qed

lemma Arg_rcis:
  assumes "0 \<le> m" and "m = 0 \<longrightarrow> z = 0"
  shows "Arg (rcis m (Arg z)) = Arg z"
proof (cases "m = 0")
  case True
  then show ?thesis using assms by simp
next
  case False
  then have m: "0 < m" using assms by simp
  then have "sgn (rcis m (Arg z)) = cis (Arg z)"
    by (simp add: rcis_def sgn_mult sgn_of_real)
  then show ?thesis using Arg_bounded[of z] by (intro cis_Arg_unique) simp_all
qed

lemma clamp_q1_zero_iff:
  assumes "k < length q"
  shows "clamp_q1 q ! k = 0 \<longleftrightarrow> (\<forall>x\<in>set q. x = 0)"
proof -
  let ?t = "zero_thr * list_max (map cmod q)"
  have t0: "0 \<le> ?t" by (rule qthr_nonneg)
  have "clamp_q1 q ! k = 0 \<longleftrightarrow> max (cmod (q ! k)) ?t = 0"
    using assms by (simp add: clamp_q1_nth)
  also have "\<dots> \<longleftrightarrow> cmod (q ! k) = 0 \<and> ?t = 0"
    using t0 by (auto simp: max_def)
  also have "\<dots> \<longleftrightarrow> (\<forall>x\<in>set q. x = 0)"
  proof
    assume a: "cmod (q ! k) = 0 \<and> ?t = 0"
    then have lm: "list_max (map cmod q) = 0" by (simp add: zero_thr_def)
    show "\<forall>x\<in>set q. x = 0"
    proof
      fix x assume "x \<in> set q"
      then have "cmod x \<le> list_max (map cmod q)" by (intro list_max_ge) simp
      with lm show "x = 0" by simp
    qed
  next
    assume a: "\<forall>x\<in>set q. x = 0"
    then have "q ! k = 0" using assms by simp
    moreover have "map cmod q = replicate (length q) 0"
      using a by (intro replicate_eqI) auto
    moreover have "list_max (replicate n (0::real)) = 0" for n
      by (induction n rule: nat_induct; simp; case_tac n; simp)
    ultimately show "cmod (q ! k) = 0 \<and> ?t = 0" by simp
  qed
  finally show ?thesis .
qed

section \<open>Running the transfer function\<close>

lemma ntf_eq:
  assumes "laplacian C D w (speed p) = Inr L"
    and "eig L = (d, v)"
    and "ev0 = take (numsmalleigs (length C)) (map (\<lambda>i. d ! i) (argsort (map Re d)))"
    and "ev0 \<noteq> []"
    and "scalars_defined p w"
    and "\<exists>x\<in>set ev0. q1_raw p w x \<noteq> 0"
    and "fr = map (\<lambda>q. Htotal p w / q) (clamp_q1 (map (q1_raw p w) ev0))"
    and "V = map (take (numsmalleigs (length C)))
               (map (\<lambda>r. map (\<lambda>i. r ! i) (argsort (map Re d))) v)"
  shows "network_transfer_function eig C D w p =
           Inr \<lparr>freqresp = fr, ev = ev0, Vv = V,
                freqresp_out =
                  foldl (\<lambda>acc k. add_mode acc (map (\<lambda>x. fr ! k * x) (column V k)))
                    Scalar0 [1..<numsmalleigs (length C)]\<rparr>"
proof -
  have "\<not> list_ex (\<lambda>q. q = 0) (clamp_q1 (map (q1_raw p w) ev0))"
  proof
    assume "list_ex (\<lambda>q. q = 0) (clamp_q1 (map (q1_raw p w) ev0))"
    then obtain k where k: "k < length (clamp_q1 (map (q1_raw p w) ev0))"
      and z: "clamp_q1 (map (q1_raw p w) ev0) ! k = 0"
      by (auto simp: list_ex_iff in_set_conv_nth)
    from k have "k < length (map (q1_raw p w) ev0)" by (simp add: length_clamp_q1)
    from clamp_q1_zero_iff[OF this] z have "\<forall>x\<in>set (map (q1_raw p w) ev0). x = 0" by simp
    with assms(6) show False by auto
  qed
  then show ?thesis
    using assms(1-5) unfolding assms(7,8)
    by (simp add: network_transfer_function_def Let_def)
qed

lemma He_defaults0: "He defaults 0 = 1"
  by (simp add: He_def defaults_def power2_eq_square)

lemma Hi_defaults0: "Hi defaults 0 = 1"
  by (simp add: Hi_def defaults_def power2_eq_square)

lemma Htotal_defaults0: "Htotal defaults 0 = 19 / 20"
  by (simp add: Htotal_def Hed_def Hid_def Heid_def He_defaults0 Hi_defaults0) (simp add: defaults_def)

lemma scalars_defaults0: "scalars_defined defaults 0"
  by (simp add: scalars_defined_def He_defaults0 Hi_defaults0) (simp add: defaults_def)

lemma q1_raw_defaults0: "q1_raw defaults 0 e = e"
  by (simp add: q1_raw_def He_defaults0) (simp add: defaults_def)


lemma upt4: "[0..<4] = [0, 1, 2, 3]"
  by (simp add: upt_rec)

lemma rowdeg_self: "rowdegree0 C_self = [1, 1, 2, 0.1]"
  by (simp add: rowdegree0_def C_self_def)

lemma coldeg_self: "coldegree0 C_self = [1, 1, 2, 0.1]"
  by (simp add: coldegree0_def C_self_def column_def upt4)

lemma qind_self: "qind [1, 1, 2, 0.1] [1, 1, 2, 0.1] = [False, False, False, True]"
  by (simp add: qind_def mean_def)

lemma those_self:
  "those (map2 L2_entry (mask [False, False, False, True] [1, 1, 2, 0.1])
                        (mask [False, False, False, True] [1, 1, 2, 0.1]))
     = Some [1 / (1 + eps), 1 / (1 + eps), 1 / (2 + eps), 0]"
  by (simp add: mask_def)


lemma Cc_self: "Cc C_self D_zero 0 5 = map (map of_real) C_self"
  by (simp add: Cc_def C_self_def D_zero_def delayed_def numeral_eq_Suc)

lemma shape_self: "shape_ok 4 C_self" "shape_ok 4 D_zero"
  by (simp_all add: shape_ok_def C_self_def D_zero_def)

lemma laplacian_self: "laplacian C_self D_zero 0 5 = Inr L_self"
proof -
  have len: "length C_self = 4" by (simp add: C_self_def)
  have m: "matmul (diag [1 / (1 + of_real eps), 1 / (1 + of_real eps),
                            1 / (2 + of_real eps), 0])
             (map (map of_real) C_self)
           = [[1 / (1 + of_real eps), 0, 0, 0], [0, 1 / (1 + of_real eps), 0, 0],
              [0, 0, 2 / (2 + of_real eps), 0], [0, 0, 0, 0]]"
    by (simp add: matmul_def diag_def ncols_def column_def C_self_def upt4)
  show ?thesis
    unfolding laplacian_def Let_def len rowdeg_self coldeg_self qind_self those_self
      Cc_self
    using shape_self
    by (simp add: identity_def upt4 L_self_def a_self_def b_self_def m)
qed

lemma eig_self: "eig_diag L_self = ([a_self, a_self, b_self, 0.8], identity 4)"
proof -
  have "length L_self = 4" by (simp add: L_self_def)
  then show ?thesis by (simp add: eig_diag_def upt4) (simp add: L_self_def)
qed

lemma a_self_real: "a_self = of_real (0.8 - 1 / (1 + eps))"
  by (simp add: a_self_def)

lemma b_self_real: "b_self = of_real (0.8 - 2 / (2 + eps))"
  by (simp add: b_self_def)

lemma argsort_self: "argsort (map Re [a_self, a_self, b_self, 0.8]) = [2, 0, 1, 3]"
  by (simp add: argsort_def upt4 a_self_real b_self_real eps_def)

lemma a_self_nonzero: "a_self \<noteq> 0"
  unfolding a_self_real by (simp add: eps_def)

lemma length_C_self: "length C_self = 4"
  by (simp add: C_self_def)

lemma numsmalleigs4: "numsmalleigs 4 = 3"
  by (simp add: numsmalleigs_eq)

lemma ntf_self:
  "network_transfer_function eig_diag C_self D_zero 0 defaults =
     Inr \<lparr>freqresp = fr_self, ev = [b_self, a_self, a_self],
          Vv = [[0, 1, 0], [0, 0, 1], [1, 0, 0], [0, 0, 0]],
          freqresp_out = Regions [fr_self ! 1, fr_self ! 2, 0, 0]\<rparr>"
proof -
  have L: "laplacian C_self D_zero 0 (speed defaults) = Inr L_self"
    using laplacian_self by (simp add: defaults_def)
  have e: "[b_self, a_self, a_self] = take (numsmalleigs (length C_self))
            (map (\<lambda>i. [a_self, a_self, b_self, 0.8] ! i)
               (argsort (map Re [a_self, a_self, b_self, 0.8])))"
    unfolding argsort_self length_C_self numsmalleigs4 by (simp add: numeral_eq_Suc)
  have f: "fr_self = map (\<lambda>q. Htotal defaults 0 / q)
                       (clamp_q1 (map (q1_raw defaults 0) [b_self, a_self, a_self]))"
    by (simp add: fr_self_def Htotal_defaults0 q1_raw_defaults0)
  have V: "[[0, 1, 0], [0, 0, 1], [1, 0, 0], [0, 0, 0]] =
             map (take (numsmalleigs (length C_self)))
               (map (\<lambda>r. map (\<lambda>i. r ! i) (argsort (map Re [a_self, a_self, b_self, 0.8])))
                  (identity 4))"
    unfolding argsort_self length_C_self numsmalleigs4
    by (simp add: identity_def upt4)
  have n: "\<exists>x\<in>set [b_self, a_self, a_self]. q1_raw defaults 0 x \<noteq> 0"
    using a_self_nonzero by (simp add: q1_raw_defaults0)
  have "[1..<numsmalleigs (length C_self)] = [1, 2]"
    unfolding length_C_self numsmalleigs4 by (simp add: upt_rec)
  then have o: "foldl (\<lambda>acc k. add_mode acc
                  (map (\<lambda>x. fr_self ! k * x) (column [[0, 1, 0], [0, 0, 1], [1, 0, 0], [0, 0, 0]] k)))
                Scalar0 [1..<numsmalleigs (length C_self)]
              = Regions [fr_self ! 1, fr_self ! 2, 0, 0]"
    by (simp add: column_def)
  have ne: "[b_self, a_self, a_self] \<noteq> []" by simp
  show ?thesis
    using ntf_eq[where eig = eig_diag and L = L_self, OF L eig_self e ne scalars_defaults0 n f V]
    unfolding o .
qed

section \<open>Mode truncation\<close>

text \<open>
  Claim C1, as stated: the transfer function keeps \<open>K = floor (2/3 \<cdot> N)\<close> eigenpairs, two
  of them for \<open>N = 4\<close>. The source rounds, \<^verbatim>\<open>np.round(2/3*C.shape[0])\<close>: for the
  four regions of \<open>C_self\<close> the floor is 2 and the function returns three modes.
\<close>

theorem transfer_mode_count_counterexample:
  "length C_self = 4 \<and> nat \<lfloor>2 / 3 * real (length C_self)\<rfloor> = 2
   \<and> (case network_transfer_function eig_diag C_self D_zero 0 defaults of
         Inl e \<Rightarrow> False
       | Inr r \<Rightarrow> length (ev r) = 3 \<and> length (freqresp r) = 3
                  \<and> list_all (\<lambda>row. length row = 3) (Vv r))"
  by (simp add: ntf_self length_C_self fr_self_def length_clamp_q1)

text \<open>
  Claim C1, amended: with an eigensolver that returns \<open>N\<close> eigenpairs, every result of the
  transfer function has \<open>K\<close> eigenvalues, \<open>K\<close> per-mode responses and an eigenvector matrix
  of \<open>N\<close> rows and \<open>K\<close> columns, where \<open>K\<close> is \<open>2/3 \<cdot> N\<close> rounded to the nearest
  integer, \<open>(2 N + 1) div 3\<close>.
\<close>

theorem transfer_mode_count:
  assumes "eig_shape eig"
    and "network_transfer_function eig C D w p = Inr r"
  shows "length (ev r) = numsmalleigs (length C)
       \<and> length (freqresp r) = numsmalleigs (length C)
       \<and> length (Vv r) = length C
       \<and> list_all (\<lambda>row. length row = numsmalleigs (length C)) (Vv r)
       \<and> numsmalleigs (length C) = (2 * length C + 1) div 3
       \<and> \<bar>real (numsmalleigs (length C)) - 2 / 3 * real (length C)\<bar> < 1 / 2"
proof -
  let ?K = "numsmalleigs (length C)"
  from assms(2) obtain L where
    L: "laplacian C D w (speed p) = Inr L"
    and ev: "ev r = take ?K (map (\<lambda>i. fst (eig L) ! i) (argsort (map Re (fst (eig L)))))"
    and Vv: "Vv r = map (take ?K)
              (map (\<lambda>r. map (\<lambda>i. r ! i) (argsort (map Re (fst (eig L))))) (snd (eig L)))"
    and fr: "freqresp r = map (\<lambda>q. Htotal p w / q) (clamp_q1 (map (q1_raw p w) (ev r)))"
    by (rule ntf_InrD)
  have n: "length L = length C" using L by (rule laplacian_length)
  have d: "length (fst (eig L)) = length C"
    and v: "shape_ok (length C) (snd (eig L))"
    using assms(1) n unfolding eig_shape_def by metis+
  have K: "?K \<le> length C" by (rule numsmalleigs_le)
  have 1: "length (ev r) = ?K" using K d by (simp add: ev length_argsort)
  have 2: "length (freqresp r) = ?K" using 1 by (simp add: fr length_clamp_q1)
  have 3: "length (Vv r) = length C" using v by (simp add: Vv shape_ok_def)
  have 4: "list_all (\<lambda>row. length row = ?K) (Vv r)"
    using K d by (simp add: Vv list_all_iff length_argsort)
  show ?thesis using 1 2 3 4 numsmalleigs_eq numsmalleigs_nearest by blast
qed

theorem transfer_mode_count_witness:
  "\<exists>r. network_transfer_function eig_diag C_self D_zero 0 defaults = Inr r
       \<and> length (ev r) = numsmalleigs (length C_self)
       \<and> length (freqresp r) = numsmalleigs (length C_self)
       \<and> length (Vv r) = length C_self
       \<and> list_all (\<lambda>row. length row = numsmalleigs (length C_self)) (Vv r)
       \<and> numsmalleigs (length C_self) = (2 * length C_self + 1) div 3
       \<and> \<bar>real (numsmalleigs (length C_self)) - 2 / 3 * real (length C_self)\<bar> < 1 / 2"
  using transfer_mode_count [OF eig_shape_eig_diag ntf_self] ntf_self by blast

section \<open>Degree masking\<close>










section \<open>Ordering of the eigenpairs\<close>

lemma mset_argsort: "mset (argsort xs) = mset [0..<length xs]"
  by (simp add: argsort_def)

lemma sorted_argsort: "sorted (map (\<lambda>i. xs ! i) (argsort xs))"
  unfolding argsort_def by (rule sorted_sort_key)

lemma argsort_Re: "map (\<lambda>i. map Re d ! i) (argsort (map Re d)) = map (\<lambda>i. Re (d ! i)) (argsort (map Re d))"
  by (rule map_cong) (simp_all add: set_argsort)

lemma mset_permuted: "mset (map (\<lambda>i. d ! i) (argsort (map Re d))) = mset d"
proof -
  have "mset (map (\<lambda>i. d ! i) (argsort (map Re d))) = image_mset (\<lambda>i. d ! i) (mset (argsort (map Re d)))"
    by simp
  also have "\<dots> = image_mset (\<lambda>i. d ! i) (mset [0..<length d])"
    by (simp only: mset_argsort length_map)
  also have "\<dots> = mset (map (\<lambda>i. d ! i) [0..<length d])" by simp
  also have "\<dots> = mset d" by (simp only: map_nth)
  finally show ?thesis .
qed


text \<open>
  Claim C6: the eigenpairs \<open>(d, v)\<close> of the Laplacian are reordered by a permutation
  \<open>ind\<close> of the indices that sorts the real parts of the eigenvalues in ascending order,
  the same permutation for the eigenvalues and for the columns of the eigenvector matrix,
  and the first \<open>K\<close> are kept: the kept eigenvalues are sorted by real part, none of them
  has a larger real part than an eigenvalue that is dropped, and kept and dropped
  eigenvalues together are the eigenvalues of \<open>L\<close>.
\<close>

theorem eigenpairs_sorted_by_real_part:
  assumes "network_transfer_function eig C D w p = Inr r"
    and "laplacian C D w (speed p) = Inr L"
    and "eig L = (d, v)"
    and "ind = argsort (map Re d)"
    and "K = numsmalleigs (length C)"
  shows "mset ind = mset [0..<length d]
       \<and> sorted (map (\<lambda>i. Re (d ! i)) ind)
       \<and> ev r = take K (map (\<lambda>i. d ! i) ind)
       \<and> Vv r = map (\<lambda>row. take K (map (\<lambda>i. row ! i) ind)) v
       \<and> sorted (map Re (ev r))
       \<and> (\<forall>x\<in>set (ev r). \<forall>y\<in>set (drop K (map (\<lambda>i. d ! i) ind)). Re x \<le> Re y)
       \<and> mset (ev r) + mset (drop K (map (\<lambda>i. d ! i) ind)) = mset d"
proof -
  let ?all = "map (\<lambda>i. d ! i) ind"
  from assms(1) obtain L' where
    L': "laplacian C D w (speed p) = Inr L'"
    and ev': "ev r = take (numsmalleigs (length C))
              (map (\<lambda>i. fst (eig L') ! i) (argsort (map Re (fst (eig L')))))"
    and Vv': "Vv r = map (take (numsmalleigs (length C)))
              (map (\<lambda>r. map (\<lambda>i. r ! i) (argsort (map Re (fst (eig L'))))) (snd (eig L')))"
    by (rule ntf_InrD)
  have "L' = L" using L' assms(2) by simp
  then have ev: "ev r = take K ?all" and Vv: "Vv r = map (\<lambda>row. take K (map (\<lambda>i. row ! i) ind)) v"
    using ev' Vv' assms(3,4,5) by simp_all
  have 1: "mset ind = mset [0..<length d]"
    unfolding assms(4) by (simp only: mset_argsort length_map)
  have 2: "sorted (map (\<lambda>i. Re (d ! i)) ind)"
    unfolding assms(4) using sorted_argsort[of "map Re d"] by (simp only: argsort_Re)
  have m: "map Re ?all = map (\<lambda>i. Re (d ! i)) ind" by simp
  have s: "sorted (map Re (take K ?all) @ map Re (drop K ?all))"
    using 2 by (simp only: map_append[symmetric] append_take_drop_id m)
  have 5: "sorted (map Re (ev r))" using s by (simp add: ev sorted_append)
  have 6: "\<forall>x\<in>set (ev r). \<forall>y\<in>set (drop K ?all). Re x \<le> Re y"
    using s unfolding ev sorted_append by auto
  have "mset (take K ?all) + mset (drop K ?all) = mset ?all"
    by (simp only: mset_append[symmetric] append_take_drop_id)
  then have 7: "mset (ev r) + mset (drop K ?all) = mset d"
    unfolding ev assms(4) by (simp only: mset_permuted)
  show ?thesis using 1 2 ev Vv 5 6 7 by blast
qed


theorem eigenpairs_sorted_by_real_part_witness:
  "\<exists>r L d v ind K. network_transfer_function eig_diag C_self D_zero 0 defaults = Inr r
       \<and> laplacian C_self D_zero 0 (speed defaults) = Inr L
       \<and> eig_diag L = (d, v) \<and> ind = argsort (map Re d) \<and> K = numsmalleigs (length C_self)
       \<and> mset ind = mset [0..<length d]
       \<and> sorted (map (\<lambda>i. Re (d ! i)) ind)
       \<and> ev r = take K (map (\<lambda>i. d ! i) ind)
       \<and> Vv r = map (\<lambda>row. take K (map (\<lambda>i. row ! i) ind)) v
       \<and> sorted (map Re (ev r))
       \<and> (\<forall>x\<in>set (ev r). \<forall>y\<in>set (drop K (map (\<lambda>i. d ! i) ind)). Re x \<le> Re y)
       \<and> mset (ev r) + mset (drop K (map (\<lambda>i. d ! i) ind)) = mset d"
proof -
  have L: "laplacian C_self D_zero 0 (speed defaults) = Inr L_self"
    using laplacian_self by (simp add: defaults_def)
  show ?thesis
    using eigenpairs_sorted_by_real_part [OF ntf_self L eig_self refl refl] ntf_self L eig_self
    by blast
qed

text \<open>In the worked input the order by real part, \<open>b_self\<close> first, differs from the order by
  magnitude: \<open>b_self\<close> is the eigenvalue of largest magnitude among the three kept.\<close>

lemma real_part_order_not_magnitude:
  "Re b_self < Re a_self \<and> cmod a_self < cmod b_self"
  unfolding a_self_real b_self_real by (simp add: eps_def)

section \<open>Magnitude and phase of the coupling term\<close>

text \<open>
  Claim C7: for every mode \<open>k\<close> the clamped coupling term has the magnitude
  \<open>max |q1[k]| (0.05 \<cdot> max\<^sub>j |q1[j]|)\<close> and the argument of the unclamped \<open>q1[k]\<close>; where
  the magnitude is not below the threshold the term is unchanged; and the per-mode
  response is \<open>Htotal\<close> divided by the clamped term.
\<close>

theorem clamped_coupling:
  assumes "network_transfer_function eig C D w p = Inr r"
    and "k < length (ev r)"
    and "q = map (q1_raw p w) (ev r)"
  shows "cmod (clamp_q1 q ! k) = max (cmod (q ! k)) (0.05 * Max (cmod ` set q))
       \<and> Arg (clamp_q1 q ! k) = Arg (q ! k)
       \<and> (0.05 * Max (cmod ` set q) \<le> cmod (q ! k) \<longrightarrow> clamp_q1 q ! k = q ! k)
       \<and> freqresp r ! k = Htotal p w / clamp_q1 q ! k"
proof -
  have k: "k < length q" using assms(2,3) by simp
  then have ne: "map cmod q \<noteq> []" by auto
  define t where "t = zero_thr * list_max (map cmod q)"
  have t: "t = 0.05 * Max (cmod ` set q)"
    using list_max_Max[OF ne] by (simp add: t_def zero_thr_def)
  have t0: "0 \<le> t" unfolding t_def by (rule qthr_nonneg)
  have c: "clamp_q1 q ! k = rcis (max (cmod (q ! k)) t) (Arg (q ! k))"
    unfolding t_def using k by (rule clamp_q1_nth)
  have 1: "cmod (clamp_q1 q ! k) = max (cmod (q ! k)) t"
    using t0 by (simp add: c)
  have 2: "Arg (clamp_q1 q ! k) = Arg (q ! k)"
    unfolding c using t0 by (intro Arg_rcis) (auto simp: max_def)
  have 3: "clamp_q1 q ! k = q ! k" if "t \<le> cmod (q ! k)"
    using that by (simp add: c max_def rcis_cmod_Arg)
  from assms(1) have "freqresp r = map (\<lambda>x. Htotal p w / x) (clamp_q1 (map (q1_raw p w) (ev r)))"
    by (rule ntf_InrD)
  then have 4: "freqresp r ! k = Htotal p w / clamp_q1 q ! k"
    using k by (simp add: assms(3) length_clamp_q1)
  show ?thesis using 1 2 3 4 unfolding t by blast
qed


theorem clamped_coupling_witness:
  "\<exists>r q. network_transfer_function eig_diag C_self D_zero 0 defaults = Inr r
     \<and> 1 < length (ev r) \<and> q = map (q1_raw defaults 0) (ev r)
     \<and> cmod (clamp_q1 q ! 1) = max (cmod (q ! 1)) (0.05 * Max (cmod ` set q))
     \<and> Arg (clamp_q1 q ! 1) = Arg (q ! 1)
     \<and> (0.05 * Max (cmod ` set q) \<le> cmod (q ! 1) \<longrightarrow> clamp_q1 q ! 1 = q ! 1)
     \<and> freqresp r ! 1 = Htotal defaults 0 / clamp_q1 q ! 1"
proof -
  let ?r = "\<lparr>freqresp = fr_self, ev = [b_self, a_self, a_self],
          Vv = [[0, 1, 0], [0, 0, 1], [1, 0, 0], [0, 0, 0]],
          freqresp_out = Regions [fr_self ! 1, fr_self ! 2, 0, 0]\<rparr>"
  have k: "1 < length (ev ?r)" by simp
  show ?thesis using clamped_coupling [OF ntf_self k refl] ntf_self k by blast
qed

section \<open>The cost function in exact arithmetic\<close>

lemma sum_list_shift: "sum_list (map (\<lambda>v. v - c) x) = sum_list x - real (length x) * c"
  by (induction x) (simp_all add: algebra_simps)

lemma sum_centred: "sum_list (map (\<lambda>v. v - mean x) x) = 0"
  by (cases "x = []") (simp_all add: sum_list_shift mean_def)

lemma centre_None: "centre ar None = None"
  by (simp add: centre_def)

lemma sum_zero_None: "sum_zero ar None = False"
  by (simp add: sum_zero_def)

lemma sum_zero_centre_exact:
  "sum_zero exact_arith (centre exact_arith q) \<longleftrightarrow> q \<noteq> None"
  by (cases q) (simp_all add: sum_zero_def centre_def exact_arith_def sum_centred)

lemma region_step_exact_eq:
  "region_step exact_arith pearsonr lpf FMEGdata freq_model err_min n =
     (if \<not> n < length FMEGdata then Inl IndexError
      else if \<not> n < length freq_model then Inl IndexError
      else case np_convolve_same (map cmod (freq_model ! n)) lpf of
             Inl e \<Rightarrow> Inl e
           | Inr cv \<Rightarrow>
               if mag2db cv \<noteq> None
                  \<or> sum_zero exact_arith
                       (if np_sum exact_arith (FMEGdata ! n) \<noteq> 0
                        then centre exact_arith (mag2db (FMEGdata ! n))
                        else Some (FMEGdata ! n))
               then store err_min n 0
               else Inl NonFinite)"
proof (cases "n < length FMEGdata \<and> n < length freq_model")
  case False
  then show ?thesis by (auto simp: region_step_def Let_def)
next
  case True
  show ?thesis
  proof (cases "np_convolve_same (map cmod (freq_model ! n)) lpf")
    case (Inl e)
    then show ?thesis using True by (simp add: region_step_def Let_def)
  next
    case (Inr cv)
    show ?thesis
    proof (cases "mag2db cv")
      case None
      then show ?thesis using True Inr
        by (simp add: region_step_def Let_def centre_None sum_zero_None split: option.splits)
    next
      case (Some y)
      then show ?thesis using True Inr
        by (simp add: region_step_def Let_def sum_zero_centre_exact)
    qed
  qed
qed

lemma region_step_exact:
  assumes "region_step exact_arith pearsonr lpf FMEGdata freq_model err_min n = Inr e"
  shows "e = err_min[n := 0]"
  using assms unfolding region_step_exact_eq
  by (simp add: store_def split: if_splits sum.splits)


lemma regions_loop_zero:
  assumes "regions_loop (region_step exact_arith pearsonr lpf FMEGdata freq_model) err_min ns = Inr e"
    and "\<forall>x\<in>set err_min. x = 0"
  shows "(\<forall>x\<in>set e. x = 0) \<and> length e = length err_min"
  using assms
proof (induction ns arbitrary: err_min)
  case Nil
  then show ?case by simp
next
  case (Cons n ns)
  from Cons.prems(1) obtain e1 where
    s: "region_step exact_arith pearsonr lpf FMEGdata freq_model err_min n = Inr e1"
    and l: "regions_loop (region_step exact_arith pearsonr lpf FMEGdata freq_model) e1 ns = Inr e"
    by (auto split: sum.splits)
  have e1: "e1 = err_min[n := 0]" using s by (rule region_step_exact)
  have "\<forall>x\<in>set e1. x = 0"
    unfolding e1 using Cons.prems(2) set_update_subset_insert[of err_min n 0] by auto
  from Cons.IH[OF l this] show ?case by (simp add: e1)
qed

lemma mean_zeros: "\<forall>x\<in>set xs. x = 0 \<Longrightarrow> mean xs = 0"
proof -
  assume "\<forall>x\<in>set xs. x = 0"
  then have "sum_list xs = 0" by (induction xs) simp_all
  then show ?thesis by (simp add: mean_def)
qed


lemma exact_cost_Inr_zero:
  assumes "network_transfer_cost eig pearsonr exact_arith params C D lpf FMEGdata frange rois
             = Inr c"
  shows "c = 0"
proof -
  from assms obtain freq_model e where
    l: "regions_loop (region_step exact_arith pearsonr lpf FMEGdata freq_model)
          (replicate (length rois) 0) rois = Inr e"
    and c: "c = - np_mean exact_arith e"
    by (auto simp: network_transfer_cost_def Let_def split: if_splits sum.splits)
  from regions_loop_zero[OF l] have "\<forall>x\<in>set e. x = 0" by simp
  then have "mean e = 0" by (rule mean_zeros)
  then show ?thesis by (simp add: c exact_arith_def)
qed

lemma exact_cost_never_minus_one:
  "network_transfer_cost eig pearsonr exact_arith params C D lpf FMEGdata frange rois
     \<noteq> Inr (- 1)"
  using exact_cost_Inr_zero by fastforce











section \<open>The agreement score of a region\<close>






lemma zero_row_scores_zero:
  assumes "n < length FMEGdata" and "n < length freq_model" and "n < length err_min"
    and "np_convolve_same (map cmod (freq_model ! n)) lpf = Inr cv"
    and "np_sum ar (FMEGdata ! n) = 0"
  shows "region_step ar pearsonr lpf FMEGdata freq_model err_min n = Inr (err_min[n := 0])"
  using assms by (simp add: region_step_def Let_def sum_zero_def store_def)











section \<open>Indexing by region labels\<close>














section \<open>A perfect match\<close>











end
